theory Spec2Isabelle
  imports
    Main
    "HOL-Library.AList"
    "HOL-Library.Multiset"
    "HOL-Library.Sublist"
begin

section \<open>Data model\<close>

text \<open>
  The bot of \<^verbatim>\<open>src/4.0.2/bot.py\<close> relays Telegram messages from source chats to
  target chats. A \<^verbatim>\<open>telegram.Message\<close> is modelled by the attributes the forwarding
  engine reads. Strings are byte strings (UTF-8); an absent attribute is \<open>None\<close>;
  \<open>photo\<close> is the tuple of size variants (their file ids), empty when the message has no
  photo; \<open>date\<close> holds the timestamp as \<^verbatim>\<open>strftime('%Y-%m-%d %H:%M:%S')\<close> prints it;
  \<open>from_user\<close> holds the sender's \<^verbatim>\<open>id\<close> and \<^verbatim>\<open>full_name\<close>.
\<close>

record message =
  message_id :: int
  chat_id :: int
  chat_title :: "string option"
  media_group_id :: "string option"
  msg_text :: "string option"
  caption :: "string option"
  photo :: "string list"
  video :: "string option"
  document :: "string option"
  audio :: "string option"
  voice :: "string option"
  sticker :: "string option"
  animation :: "string option"
  location :: bool
  poll :: bool
  date :: string
  from_user :: "(int \<times> string) option"

text \<open>Python truthiness of an optional string: neither \<^verbatim>\<open>None\<close> nor empty.\<close>

definition truthy :: "string option \<Rightarrow> bool" where
  "truthy s = (case s of None \<Rightarrow> False | Some v \<Rightarrow> v \<noteq> [])"

section \<open>MediaGroupHandler\<close>

text \<open>
  A timer task created by \<^verbatim>\<open>add_message\<close> runs the coroutine
  \<^verbatim>\<open>_process_group_after_timeout\<close>. It is \<open>Sleeping\<close> until its wake-up time
  (creation time plus \<^verbatim>\<open>timeout_seconds\<close>), then \<open>Forwarding\<close> while it awaits
  \<^verbatim>\<open>forward_callback\<close>, and \<open>Finished\<close> if it found no buffer for its group.
\<close>

datatype task = Sleeping nat | Forwarding | Finished

text \<open>
  The two dictionaries are association lists in insertion order, as Python dictionaries
  are. Besides the fields of the class, the state carries the clock of the event loop
  (\<open>now\<close>, in ticks of any resolution) and the log of the batches handed to
  \<^verbatim>\<open>forward_callback\<close>, in call order (\<open>emitted\<close>).
\<close>

record handler =
  media_groups :: "(string \<times> message list) list"
  group_timers :: "(string \<times> task) list"
  timeout_seconds :: nat
  now :: nat
  emitted :: "message list list"

definition init_handler :: "nat \<Rightarrow> handler" where
  "init_handler t =
     \<lparr>media_groups = [], group_timers = [], timeout_seconds = t, now = 0, emitted = []\<rparr>"

text \<open>
  \<^verbatim>\<open>add_message\<close>: a message without group id goes to the callback at once. Otherwise it
  is appended to the buffer of its group (\<^verbatim>\<open>defaultdict(list)\<close> creates the buffer), the
  registered timer task is cancelled and a new one is registered in its place. The body has
  no suspension point on this path, so it is one step of the event loop. A cancelled task
  never resumes: the cancellation is raised inside it as \<^verbatim>\<open>CancelledError\<close>, which no
  \<^verbatim>\<open>except Exception\<close> clause of the bot catches.
\<close>

definition add_message :: "message \<Rightarrow> handler \<Rightarrow> handler" where
  "add_message m s =
     (if \<not> truthy (media_group_id m) then s\<lparr>emitted := emitted s @ [[m]]\<rparr>
      else
        let group_id = (case media_group_id m of Some g \<Rightarrow> g | None \<Rightarrow> []);
            buf = (case map_of (media_groups s) group_id of None \<Rightarrow> [] | Some ms \<Rightarrow> ms)
        in s\<lparr>media_groups := AList.update group_id (buf @ [m]) (media_groups s),
              group_timers :=
                AList.update group_id (Sleeping (now s + timeout_seconds s)) (group_timers s)\<rparr>)"

text \<open>
  \<^verbatim>\<open>_process_group_after_timeout\<close>, first half: the sleep of the task registered for
  \<open>group_id\<close> is over. If the group has a buffer, the buffer is sorted in place by
  \<^verbatim>\<open>message_id\<close> (a stable sort, as \<^verbatim>\<open>list.sort\<close> is) and passed to the callback; the
  task stays suspended in the callback. A task that is not due does nothing.
\<close>

definition process_group_begin :: "string \<Rightarrow> handler \<Rightarrow> handler" where
  "process_group_begin group_id s =
     (case map_of (group_timers s) group_id of
        Some (Sleeping wake) \<Rightarrow>
          (if now s < wake then s
           else case map_of (media_groups s) group_id of
                  None \<Rightarrow> s\<lparr>group_timers := AList.update group_id Finished (group_timers s)\<rparr>
                | Some ms \<Rightarrow>
                    s\<lparr>media_groups :=
                        AList.update group_id (sort_key message_id ms) (media_groups s),
                      group_timers := AList.update group_id Forwarding (group_timers s),
                      emitted := emitted s @ [sort_key message_id ms]\<rparr>)
      | _ \<Rightarrow> s)"

text \<open>
  Second half: the callback has returned to the task, which deletes the buffer of the group
  and the timer entry of the group.
\<close>

definition process_group_end :: "string \<Rightarrow> handler \<Rightarrow> handler" where
  "process_group_end group_id s =
     (case map_of (group_timers s) group_id of
        Some Forwarding \<Rightarrow>
          s\<lparr>media_groups := AList.delete group_id (media_groups s),
            group_timers := AList.delete group_id (group_timers s)\<rparr>
      | _ \<Rightarrow> s)"

text \<open>
  The whole coroutine when nothing else runs while the callback is awaited.
\<close>

definition process_group_after_timeout :: "string \<Rightarrow> handler \<Rightarrow> handler" where
  "process_group_after_timeout group_id s =
     process_group_end group_id (process_group_begin group_id s)"

text \<open>
  The event loop: the groups whose timer task is due at time \<open>t\<close>, earliest wake-up first;
  timers due at the same tick are taken in the order of their groups in \<open>group_timers\<close>.
\<close>

fun due_entry :: "nat \<Rightarrow> string \<times> task \<Rightarrow> (string \<times> nat) option" where
  "due_entry t (g, Sleeping wake) = (if wake \<le> t then Some (g, wake) else None)"
| "due_entry t (g, Forwarding) = None"
| "due_entry t (g, Finished) = None"

definition due :: "nat \<Rightarrow> handler \<Rightarrow> string list" where
  "due t s = map fst (sort_key snd (List.map_filter (due_entry t) (group_timers s)))"

text \<open>
  \<open>elapse d\<close>: \<open>d\<close> ticks pass with no submission; every timer task that comes due
  runs, and its callback returns before the next event.
\<close>

definition elapse :: "nat \<Rightarrow> handler \<Rightarrow> handler" where
  "elapse d s =
     foldl (\<lambda>s' g. process_group_after_timeout g s') (s\<lparr>now := now s + d\<rparr>) (due (now s + d) s)"

datatype event = Submit message | Elapse nat

fun step :: "handler \<Rightarrow> event \<Rightarrow> handler" where
  "step s (Submit m) = add_message m s"
| "step s (Elapse d) = elapse d s"

definition run :: "handler \<Rightarrow> event list \<Rightarrow> handler" where
  "run s evs = foldl step s evs"

text \<open>
  A burst: a first submission, then further ones, each a given number of ticks after the
  one before it.
\<close>

fun burst_events :: "(nat \<times> message) list \<Rightarrow> event list" where
  "burst_events [] = []"
| "burst_events ((d, m) # rest) = Elapse d # Submit m # burst_events rest"

definition burst :: "message \<Rightarrow> (nat \<times> message) list \<Rightarrow> event list" where
  "burst m0 rest = Submit m0 # burst_events rest"

text \<open>The items a run submitted, and the items a handler holds in its buffers.\<close>

fun submitted :: "event list \<Rightarrow> message list" where
  "submitted [] = []"
| "submitted (Submit m # evs) = m # submitted evs"
| "submitted (Elapse d # evs) = submitted evs"

definition buffered :: "handler \<Rightarrow> message list" where
  "buffered s = concat (map snd (media_groups s))"

text \<open>
  Between two events of a run no task is inside the callback, and a group has one buffer.
\<close>

definition quiescent :: "handler \<Rightarrow> bool" where
  "quiescent s =
     (distinct (map fst (media_groups s)) \<and> Forwarding \<notin> snd ` set (group_timers s))"

section \<open>Configuration\<close>

text \<open>
  The entries of \<^verbatim>\<open>bot_config.json\<close> that the forwarding engine reads
  (\<^verbatim>\<open>load_config\<close> fills in the missing ones). \<open>paraphrase_rules\<close> is the dictionary
  of substitutions in insertion order; \<open>deepseek_enabled\<close> and \<open>deepseek_api_key\<close> are the
  entries \<^verbatim>\<open>enabled\<close> and \<^verbatim>\<open>api_key\<close> of \<^verbatim>\<open>deepseek_settings\<close>.
\<close>

record config =
  admins :: "int list"
  source_channels :: "int list"
  target_channels :: "int list"
  preserve_sender :: bool
  add_source_info :: bool
  filter_content_types :: "string list"
  keyword_filter :: "string list"
  delay_seconds :: int
  notify_admin_on_error :: bool
  paraphrase_rules :: "(string \<times> string) list"
  deepseek_enabled :: bool
  deepseek_api_key :: string

section \<open>Classification and filtering\<close>

definition get_message_type :: "message \<Rightarrow> string" where
  "get_message_type m =
     (if truthy (msg_text m) then ''text''
      else if photo m \<noteq> [] then ''photo''
      else if video m \<noteq> None then ''video''
      else if document m \<noteq> None then ''document''
      else if audio m \<noteq> None then ''audio''
      else if voice m \<noteq> None then ''voice''
      else if sticker m \<noteq> None then ''sticker''
      else if animation m \<noteq> None then ''animation''
      else if location m then ''location''
      else if poll m then ''poll''
      else ''other'')"

text \<open>
  \<^verbatim>\<open>str.lower\<close> is a built-in of the Python runtime, with the case tables of Unicode
  behind it; the filter takes it as the parameter \<open>lower\<close>, a function on strings.
\<close>

text \<open>\<^verbatim>\<open>a or b\<close> on optional strings, and \<^verbatim>\<open>a or ""\<close>.\<close>

definition str_or :: "string option \<Rightarrow> string option \<Rightarrow> string option" where
  "str_or a b = (if truthy a then a else b)"

definition or_empty :: "string option \<Rightarrow> string" where
  "or_empty a = (case a of None \<Rightarrow> [] | Some v \<Rightarrow> v)"





text \<open>
  What the Bot API delivers: an optional string is absent rather than empty, and a message
  carries a text (a text message) or a caption and media (a media message), never both.
\<close>

definition wf_message :: "message \<Rightarrow> bool" where
  "wf_message m =
     (msg_text m \<noteq> Some [] \<and> caption m \<noteq> Some [] \<and>
      (msg_text m = None \<or>
        (caption m = None \<and> photo m = [] \<and> video m = None \<and> document m = None \<and>
         audio m = None)))"

section \<open>Text processing\<close>

text \<open>\<^verbatim>\<open>str.replace(old, new)\<close>: every occurrence, left to right, without overlap.\<close>

function replace :: "string \<Rightarrow> string \<Rightarrow> string \<Rightarrow> string" where
  "replace old new [] = (if old = [] then new else [])"
| "replace old new (c # cs) =
     (if old = [] then new @ c # replace old new cs
      else if prefix old (c # cs) then new @ replace old new (drop (length old) (c # cs))
      else c # replace old new cs)"
  by pat_completeness auto
termination
  by (relation "measure (\<lambda>(old, new, s). length s)") auto

definition apply_paraphrase_rules :: "config \<Rightarrow> string \<Rightarrow> string" where
  "apply_paraphrase_rules cfg t =
     (if paraphrase_rules cfg = [] \<or> t = [] then t
      else foldl (\<lambda>modified (old_word, new_word). replace old_word new_word modified) t
             (paraphrase_rules cfg))"

text \<open>\<^verbatim>\<open>str.strip()\<close>, on the ASCII white space.\<close>

definition is_space :: "char \<Rightarrow> bool" where
  "is_space c = (let n = (of_char c :: nat) in n = 32 \<or> (9 \<le> n \<and> n \<le> 13) \<or> (28 \<le> n \<and> n \<le> 31))"

definition strip :: "string \<Rightarrow> string" where
  "strip s = rev (dropWhile is_space (rev (dropWhile is_space s)))"

text \<open>
  The answer of the chat-completion endpoint to a prompt: the call raises (network error,
  timeout, API error), or returns the \<^verbatim>\<open>message.content\<close> of each choice.
\<close>

datatype api_result = ApiError string | ApiResponse "string option list"

text \<open>\<^verbatim>\<open>_init_client\<close>: a client exists when the API key is not a placeholder.\<close>

definition client_available :: "config \<Rightarrow> bool" where
  "client_available cfg =
     (deepseek_api_key cfg \<notin> set [[], ''put your api key here'', ''your_api_key''])"

text \<open>
  \<^verbatim>\<open>DeepSeekRewriter.rewrite_text\<close>. Inside \<^verbatim>\<open>try\<close>, \<^verbatim>\<open>choices[0]\<close> raises on an
  empty list and \<^verbatim>\<open>.strip()\<close> raises on an absent content; \<^verbatim>\<open>except Exception\<close>
  returns the input.
\<close>

definition rewrite_text :: "config \<Rightarrow> (string \<Rightarrow> api_result) \<Rightarrow> string \<Rightarrow> string" where
  "rewrite_text cfg api t =
     (if \<not> deepseek_enabled cfg then t
      else if \<not> client_available cfg then t
      else if t = [] \<or> strip t = [] then t
      else case api t of
             ApiError e \<Rightarrow> t
           | ApiResponse [] \<Rightarrow> t
           | ApiResponse (None # _) \<Rightarrow> t
           | ApiResponse (Some content # _) \<Rightarrow> strip content)"

text \<open>\<^verbatim>\<open>str(n)\<close> for an integer.\<close>

fun digits :: "nat \<Rightarrow> string" where
  "digits n = (if n < 10 then [char_of (48 + n)] else digits (n div 10) @ [char_of (48 + n mod 10)])"

declare digits.simps [simp del]

definition str_int :: "int \<Rightarrow> string" where
  "str_int i = (if i < 0 then CHR ''-'' # digits (nat (- i)) else digits (nat i))"

text \<open>The three labels of the source-info block, as UTF-8 bytes.\<close>

definition source_label :: string where
  "source_label = map char_of [10, 10, 240, 159, 147, 162, 32, 230, 157, 165, 230, 186, 144, 58, 32 :: nat]"

definition time_label :: string where
  "time_label = map char_of [10, 226, 143, 176, 32, 230, 151, 182, 233, 151, 180, 58, 32 :: nat]"

definition sender_label :: string where
  "sender_label =
     map char_of [10, 240, 159, 145, 164, 32, 229, 143, 145, 233, 128, 129, 232, 128, 133, 58, 32 :: nat]"

definition build_caption :: "config \<Rightarrow> (string \<Rightarrow> api_result) \<Rightarrow> message \<Rightarrow> string" where
  "build_caption cfg api m =
     (let original_text = or_empty (str_or (caption m) (msg_text m));
          substituted = apply_paraphrase_rules cfg original_text;
          processed_text =
            (if deepseek_enabled cfg then rewrite_text cfg api substituted else substituted)
      in if add_source_info cfg
         then processed_text @ source_label
                @ (if truthy (chat_title m) then or_empty (chat_title m) else str_int (chat_id m))
                @ time_label @ date m
                @ (case from_user m of
                     Some (_, sender_name) \<Rightarrow>
                       if preserve_sender cfg then sender_label @ sender_name else []
                   | None \<Rightarrow> [])
         else processed_text)"

section \<open>ForwardDispatcher\<close>

datatype input_media =
    InputMediaPhoto string "string option"
  | InputMediaVideo string "string option"
  | InputMediaDocument string "string option"
  | InputMediaAudio string "string option"

fun media_caption :: "input_media \<Rightarrow> string option" where
  "media_caption (InputMediaPhoto _ c) = c"
| "media_caption (InputMediaVideo _ c) = c"
| "media_caption (InputMediaDocument _ c) = c"
| "media_caption (InputMediaAudio _ c) = c"

text \<open>The calls of the Bot API the dispatcher makes; the first argument is the target chat.\<close>

datatype request =
    send_message int string
  | send_photo int string string
  | send_video int string string
  | send_document int string string
  | send_audio int string string
  | send_voice int string string
  | send_animation int string string
  | copy_message int int int
  | send_media_group int "input_media list"

text \<open>
  What a dispatch does, in order: the delay, each API call it attempts, each row it writes
  with \<^verbatim>\<open>log_forward\<close> (source chat, target chat, message id, content type, group id,
  is-media-group flag, success flag, error text; the forwarded id is always \<^verbatim>\<open>None\<close>),
  and each call of \<^verbatim>\<open>notify_admins_error\<close> (source chat, target chat, error text).
  The counters of \<^verbatim>\<open>self.stats\<close> and the log file are left out.
\<close>

datatype effect =
    Sleep int
  | Call request
  | log_forward int int int string "string option" bool bool "string option"
  | notify_admins_error int int string

definition create_input_media :: "message \<Rightarrow> string option \<Rightarrow> input_media option" where
  "create_input_media m cap =
     (if photo m \<noteq> [] then Some (InputMediaPhoto (last (photo m)) cap)
      else case video m of
        Some v \<Rightarrow> Some (InputMediaVideo v cap)
      | None \<Rightarrow>
         (case document m of
            Some d \<Rightarrow> Some (InputMediaDocument d cap)
          | None \<Rightarrow>
             (case audio m of
                Some a \<Rightarrow> Some (InputMediaAudio a cap)
              | None \<Rightarrow> None)))"

text \<open>
  The content types a grouped unit can carry, and the relation between an element of the
  outgoing list and the item it was made from.
\<close>

definition is_media_type :: "string \<Rightarrow> bool" where
  "is_media_type content_type =
     (content_type \<in> set [''photo'', ''video'', ''document'', ''audio''])"

definition encodes :: "input_media \<Rightarrow> message \<Rightarrow> bool" where
  "encodes x m = (create_input_media m (media_caption x) = Some x)"

text \<open>The loop that builds \<^verbatim>\<open>media_list\<close>: the caption goes to index 0 only.\<close>

definition build_media_list :: "string \<Rightarrow> message list \<Rightarrow> input_media list" where
  "build_media_list caption_text messages =
     List.map_filter
       (\<lambda>(i, m). if i = (0::nat) then create_input_media m (Some caption_text)
                  else create_input_media m None)
       (enumerate 0 messages)"

text \<open>
  The network is a parameter: \<open>net r\<close> is \<open>None\<close> when the call \<open>r\<close> succeeds and
  \<open>Some e\<close> when it raises an \<^verbatim>\<open>Exception\<close> whose text is \<open>e\<close>.
\<close>

definition log_rows :: "int \<Rightarrow> message list \<Rightarrow> bool \<Rightarrow> string option \<Rightarrow> effect list" where
  "log_rows target_id messages success error_msg =
     map (\<lambda>msg. log_forward (chat_id msg) target_id (message_id msg) (get_message_type msg)
                   (media_group_id msg) True success error_msg) messages"

text \<open>One iteration of the loop of \<^verbatim>\<open>forward_media_group\<close> (\<open>messages\<close> is not empty).\<close>

definition forward_media_group_target ::
  "config \<Rightarrow> (string \<Rightarrow> api_result) \<Rightarrow> (request \<Rightarrow> string option) \<Rightarrow> message list \<Rightarrow> int
     \<Rightarrow> effect list" where
  "forward_media_group_target cfg api net messages target_id =
     (case messages of
        [] \<Rightarrow> []
      | first # _ \<Rightarrow>
          let media_list = build_media_list (build_caption cfg api first) messages
          in if media_list = [] then []
             else (case net (send_media_group target_id media_list) of
                     None \<Rightarrow>
                       [Call (send_media_group target_id media_list)]
                         @ log_rows target_id messages True None
                   | Some error_msg \<Rightarrow>
                       [Call (send_media_group target_id media_list)]
                         @ log_rows target_id messages False (Some error_msg)
                         @ (if notify_admin_on_error cfg
                            then [notify_admins_error (chat_id first) target_id error_msg]
                            else [])))"

definition forward_media_group ::
  "config \<Rightarrow> (string \<Rightarrow> api_result) \<Rightarrow> (request \<Rightarrow> string option) \<Rightarrow> message list
     \<Rightarrow> effect list" where
  "forward_media_group cfg api net messages =
     concat (map (forward_media_group_target cfg api net messages) (target_channels cfg))"

definition need_process :: "config \<Rightarrow> bool" where
  "need_process cfg =
     (deepseek_enabled cfg \<or> paraphrase_rules cfg \<noteq> [] \<or> add_source_info cfg)"

text \<open>
  The API call \<^verbatim>\<open>forward_single_message\<close> makes for one target. A content type implies
  that the attribute it names is present, which the defaults of the \<open>case\<close>s record.
\<close>

definition single_request :: "config \<Rightarrow> (string \<Rightarrow> api_result) \<Rightarrow> message \<Rightarrow> int \<Rightarrow> request" where
  "single_request cfg api m target_id =
     (let content_type = get_message_type m in
      if need_process cfg then
        let cap = build_caption cfg api m in
        if content_type = ''text'' then send_message target_id cap
        else if content_type = ''photo'' then send_photo target_id (last (photo m)) cap
        else if content_type = ''video'' then send_video target_id (or_empty (video m)) cap
        else if content_type = ''document'' then send_document target_id (or_empty (document m)) cap
        else if content_type = ''audio'' then send_audio target_id (or_empty (audio m)) cap
        else if content_type = ''voice'' then send_voice target_id (or_empty (voice m)) cap
        else if content_type = ''animation''
          then send_animation target_id (or_empty (animation m)) cap
        else copy_message target_id (chat_id m) (message_id m)
      else copy_message target_id (chat_id m) (message_id m))"

definition forward_single_target ::
  "config \<Rightarrow> (string \<Rightarrow> api_result) \<Rightarrow> (request \<Rightarrow> string option) \<Rightarrow> message \<Rightarrow> int
     \<Rightarrow> effect list" where
  "forward_single_target cfg api net m target_id =
     (let r = single_request cfg api m target_id in
      case net r of
        None \<Rightarrow>
          [Call r,
           log_forward (chat_id m) target_id (message_id m) (get_message_type m) None False True
             None]
      | Some error_msg \<Rightarrow>
          Call r
            # log_forward (chat_id m) target_id (message_id m) (get_message_type m) None False
                False (Some error_msg)
            # (if notify_admin_on_error cfg
               then [notify_admins_error (chat_id m) target_id error_msg] else []))"

definition forward_single_message ::
  "config \<Rightarrow> (string \<Rightarrow> api_result) \<Rightarrow> (request \<Rightarrow> string option) \<Rightarrow> message \<Rightarrow> effect list" where
  "forward_single_message cfg api net m =
     concat (map (forward_single_target cfg api net m) (target_channels cfg))"

definition forward_messages_group ::
  "config \<Rightarrow> (string \<Rightarrow> api_result) \<Rightarrow> (request \<Rightarrow> string option) \<Rightarrow> message list
     \<Rightarrow> effect list" where
  "forward_messages_group cfg api net messages =
     (case messages of
        [] \<Rightarrow> []
      | first # rest \<Rightarrow>
          if target_channels cfg = [] then []
          else (if delay_seconds cfg > 0 then [Sleep (delay_seconds cfg)] else [])
               @ (if rest \<noteq> [] \<and> truthy (media_group_id first)
                  then forward_media_group cfg api net messages
                  else forward_single_message cfg api net first))"

section \<open>Observations on a dispatch\<close>

text \<open>
  The rows \<^verbatim>\<open>log_forward\<close> wrote (target and success flag), the API calls attempted,
  and the targets the admins were notified about, each in order.
\<close>

fun row_of :: "effect \<Rightarrow> (int \<times> bool) option" where
  "row_of (log_forward _ t _ _ _ _ ok _) = Some (t, ok)"
| "row_of _ = None"

definition outcomes :: "effect list \<Rightarrow> (int \<times> bool) list" where
  "outcomes es = List.map_filter row_of es"

fun call_of :: "effect \<Rightarrow> request option" where
  "call_of (Call r) = Some r"
| "call_of _ = None"

definition calls :: "effect list \<Rightarrow> request list" where
  "calls es = List.map_filter call_of es"

fun notified_of :: "effect \<Rightarrow> int option" where
  "notified_of (notify_admins_error _ t _) = Some t"
| "notified_of _ = None"

definition notified :: "effect list \<Rightarrow> int list" where
  "notified es = List.map_filter notified_of es"

section \<open>Sample data\<close>







definition photo_message :: "int \<Rightarrow> string option \<Rightarrow> string option \<Rightarrow> message" where
  "photo_message i g c =
     \<lparr>message_id = i, chat_id = -100, chat_title = Some ''news'', media_group_id = g,
      msg_text = None, caption = c, photo = [''small'', ''large''], video = None,
      document = None, audio = None, voice = None, sticker = None, animation = None,
      location = False, poll = False, date = ''2024-01-01 00:00:00'', from_user = None\<rparr>"

definition voice_message :: "int \<Rightarrow> string option \<Rightarrow> message" where
  "voice_message i g = (photo_message i g None)\<lparr>photo := [], voice := Some ''v1''\<rparr>"

definition text_message :: "int \<Rightarrow> string \<Rightarrow> message" where
  "text_message i t = (photo_message i None None)\<lparr>photo := [], msg_text := Some t\<rparr>"

definition plain_config :: config where
  "plain_config =
     \<lparr>admins = [1], source_channels = [-100], target_channels = [-201, -202],
      preserve_sender = True, add_source_info = False, filter_content_types = [],
      keyword_filter = [], delay_seconds = 0, notify_admin_on_error = True,
      paraphrase_rules = [], deepseek_enabled = False, deepseek_api_key = []\<rparr>"

section \<open>Single items\<close>

text \<open>
  C5. An item whose group id is absent is handed to the dispatcher at once, as a batch of
  exactly that one item: the batch is the next entry of the callback log, and neither a
  buffer nor a timer is created, so nothing waits for the debounce window.
\<close>

theorem add_message_no_group_immediate:
  "media_group_id m = None \<Longrightarrow>
     emitted (add_message m s) = emitted s @ [[m]] \<and>
     media_groups (add_message m s) = media_groups s \<and>
     group_timers (add_message m s) = group_timers s \<and>
     now (add_message m s) = now s"
  by (simp add: add_message_def truthy_def)

theorem add_message_no_group_immediate_witness:
  "media_group_id (text_message 7 ''hi'') = None \<and>
   emitted (add_message (text_message 7 ''hi'') (init_handler 3)) = [[text_message 7 ''hi'']] \<and>
   media_groups (add_message (text_message 7 ''hi'') (init_handler 3)) = [] \<and>
   group_timers (add_message (text_message 7 ''hi'') (init_handler 3)) = []"
  using add_message_no_group_immediate [of "text_message 7 ''hi''" "init_handler 3"]
  by (simp add: text_message_def photo_message_def init_handler_def)

section \<open>Filtering\<close>





section \<open>Rewriting\<close>

lemma rewrite_text_fail:
  "\<not> client_available cfg \<or> api t = ApiError e \<Longrightarrow> rewrite_text cfg api t = t"
  by (auto simp: rewrite_text_def)

lemma apply_paraphrase_rules_enabled:
  "apply_paraphrase_rules (cfg\<lparr>deepseek_enabled := b\<rparr>) t = apply_paraphrase_rules cfg t"
  by (simp add: apply_paraphrase_rules_def)

text \<open>
  C9. When the rewriter has no client, or the call to the model raises (an error or a
  timeout), \<^verbatim>\<open>rewrite_text\<close> returns its input unchanged, for every input; and the caption
  \<^verbatim>\<open>build_caption\<close> builds is then the one it builds with rewriting switched off, that is,
  from the text as it was before the rewrite. The function returns a string in every case,
  so the failure does not reach the dispatch.
\<close>

theorem rewrite_text_failure_unchanged:
  "(\<not> client_available cfg \<or> api t = ApiError e \<longrightarrow> rewrite_text cfg api t = t) \<and>
   (\<not> client_available cfg \<or>
      api (apply_paraphrase_rules cfg (or_empty (str_or (caption m) (msg_text m)))) = ApiError e
    \<longrightarrow> build_caption cfg api m = build_caption (cfg\<lparr>deepseek_enabled := False\<rparr>) api m)"
proof (intro conjI impI)
  assume "\<not> client_available cfg \<or> api t = ApiError e"
  then show "rewrite_text cfg api t = t"
    by (rule rewrite_text_fail)
next
  let ?t = "apply_paraphrase_rules cfg (or_empty (str_or (caption m) (msg_text m)))"
  assume "\<not> client_available cfg \<or> api ?t = ApiError e"
  then have "rewrite_text cfg api ?t = ?t"
    by (rule rewrite_text_fail)
  then show "build_caption cfg api m = build_caption (cfg\<lparr>deepseek_enabled := False\<rparr>) api m"
    unfolding build_caption_def
    by (simp add: apply_paraphrase_rules_enabled Let_def split: option.splits)
qed

theorem rewrite_text_failure_unchanged_witness:
  "rewrite_text (plain_config\<lparr>deepseek_enabled := True, deepseek_api_key := ''sk-1''\<rparr>)
     (\<lambda>_. ApiError ''timeout'') ''hello'' = ''hello'' \<and>
   build_caption (plain_config\<lparr>deepseek_enabled := True, deepseek_api_key := ''sk-1''\<rparr>)
     (\<lambda>_. ApiError ''timeout'') (text_message 1 ''hello'') = ''hello''"
proof -
  let ?cfg = "plain_config\<lparr>deepseek_enabled := True, deepseek_api_key := ''sk-1''\<rparr>"
  let ?api = "\<lambda>_::string. ApiError ''timeout''"
  note T = rewrite_text_failure_unchanged
    [of ?cfg ?api "''hello''" "''timeout''" "text_message 1 ''hello''"]
  have off: "build_caption (?cfg\<lparr>deepseek_enabled := False\<rparr>) ?api (text_message 1 ''hello'')
               = ''hello''"
    by code_simp
  from T off show ?thesis
    by simp
qed

text \<open>A call that succeeds does change the text: the rewriter is not the identity.\<close>

lemma rewrite_text_success:
  "rewrite_text (plain_config\<lparr>deepseek_enabled := True, deepseek_api_key := ''sk-1''\<rparr>)
     (\<lambda>_. ApiResponse [Some '' Good day '']) ''hello'' = ''Good day''"
  by code_simp

section \<open>Building the grouped unit\<close>

lemma map_filter_enumerate_pos:
  "0 < n \<Longrightarrow>
   List.map_filter (\<lambda>(i, m). if i = (0::nat) then f m else g m) (enumerate n ms) =
   List.map_filter g ms"
proof (induction ms arbitrary: n)
  case Nil
  then show ?case by simp
next
  case (Cons a ms)
  from Cons.IH [of "Suc n"] Cons.prems show ?case
    by (simp split: option.splits)
qed

lemma build_media_list_Cons:
  "build_media_list cap (first # rest) =
     (case create_input_media first (Some cap) of None \<Rightarrow> [] | Some x \<Rightarrow> [x])
     @ List.map_filter (\<lambda>m. create_input_media m None) rest"
  by (simp add: build_media_list_def map_filter_enumerate_pos split: option.splits)

lemma create_input_media_caption:
  "create_input_media m c = Some x \<Longrightarrow> media_caption x = c"
  by (auto simp: create_input_media_def split: if_splits option.splits)

lemma map_filter_in_set: "x \<in> set (List.map_filter f xs) \<longleftrightarrow> (\<exists>y\<in>set xs. f y = Some x)"
  by (induction xs) (auto split: option.splits)

lemma create_input_media_wf:
  "wf_message m \<Longrightarrow>
   create_input_media m c \<noteq> None \<longleftrightarrow> is_media_type (get_message_type m)"
  by (auto simp: create_input_media_def get_message_type_def wf_message_def truthy_def
      is_media_type_def split: option.splits)

lemma create_input_media_encodes: "create_input_media m c = Some x \<Longrightarrow> encodes x m"
  by (auto simp: encodes_def create_input_media_def split: if_splits option.splits)

lemma encodable_all2:
  "\<forall>m\<in>set ms. wf_message m \<Longrightarrow>
   list_all2 encodes (List.map_filter (\<lambda>m. create_input_media m c) ms)
     (filter (\<lambda>m. is_media_type (get_message_type m)) ms)"
proof (induction ms)
  case Nil
  then show ?case by simp
next
  case (Cons m ms)
  then have wf: "wf_message m"
    and IH: "list_all2 encodes (List.map_filter (\<lambda>m. create_input_media m c) ms)
               (filter (\<lambda>m. is_media_type (get_message_type m)) ms)"
    by simp_all
  show ?case
  proof (cases "create_input_media m c")
    case None
    with create_input_media_wf [OF wf, of c] IH show ?thesis by simp
  next
    case (Some x)
    with create_input_media_wf [OF wf, of c] IH create_input_media_encodes [OF Some]
    show ?thesis by simp
  qed
qed

lemma build_media_list_all2:
  assumes "\<forall>m\<in>set messages. wf_message m"
  shows "list_all2 encodes (build_media_list cap messages)
           (filter (\<lambda>m. is_media_type (get_message_type m)) messages)"
proof (cases messages)
  case Nil
  then show ?thesis
    by (simp add: build_media_list_def)
next
  case (Cons first rest)
  let ?enc = "\<lambda>m. is_media_type (get_message_type m)"
  from assms Cons have wf: "wf_message first" and wfs: "\<forall>m\<in>set rest. wf_message m"
    by simp_all
  have lead: "list_all2 encodes
      (case create_input_media first (Some cap) of None \<Rightarrow> [] | Some x \<Rightarrow> [x])
      (filter ?enc [first])"
    using create_input_media_wf [OF wf, of "Some cap"]
    by (auto split: option.splits dest: create_input_media_encodes)
  have "list_all2 encodes (build_media_list cap (first # rest))
          (filter ?enc [first] @ filter ?enc rest)"
    unfolding build_media_list_Cons
    by (rule list_all2_appendI [OF lead encodable_all2 [OF wfs]])
  moreover have "filter ?enc [first] @ filter ?enc rest = filter ?enc messages"
    using Cons by simp
  ultimately show ?thesis
    using Cons by simp
qed

section \<open>Observing a dispatch\<close>

lemma obs_append:
  "calls (xs @ ys) = calls xs @ calls ys"
  "outcomes (xs @ ys) = outcomes xs @ outcomes ys"
  "notified (xs @ ys) = notified xs @ notified ys"
  by (simp_all add: calls_def outcomes_def notified_def List.map_filter_def)

lemma obs_concat:
  "calls (concat xss) = concat (map calls xss)"
  "outcomes (concat xss) = concat (map outcomes xss)"
  "notified (concat xss) = concat (map notified xss)"
  by (induction xss) (simp_all add: obs_append, simp_all add: calls_def outcomes_def notified_def)

lemma obs_Nil: "calls [] = []" "outcomes [] = []" "notified [] = []"
  by (simp_all add: calls_def outcomes_def notified_def)

lemma obs_Cons:
  "calls (Call r # es) = r # calls es"
  "calls (log_forward a b c d e f g h # es) = calls es"
  "calls (notify_admins_error x y z # es) = calls es"
  "calls (Sleep n # es) = calls es"
  "outcomes (Call r # es) = outcomes es"
  "outcomes (log_forward a b c d e f g h # es) = (b, g) # outcomes es"
  "outcomes (notify_admins_error x y z # es) = outcomes es"
  "outcomes (Sleep n # es) = outcomes es"
  "notified (Call r # es) = notified es"
  "notified (log_forward a b c d e f g h # es) = notified es"
  "notified (notify_admins_error x y z # es) = y # notified es"
  "notified (Sleep n # es) = notified es"
  by (simp_all add: calls_def outcomes_def notified_def)

lemma obs_log_rows:
  "calls (log_rows t ms ok e) = []"
  "outcomes (log_rows t ms ok e) = replicate (length ms) (t, ok)"
  "notified (log_rows t ms ok e) = []"
  by (induction ms) (simp_all add: log_rows_def obs_Nil obs_Cons)

lemma concat_map_if_singleton:
  "concat (map (\<lambda>t. if P t then [t] else []) ts) = filter P ts"
  by (induction ts) simp_all

lemma single_target_obs:
  "calls (forward_single_target cfg api net m t) = [single_request cfg api m t]"
  "outcomes (forward_single_target cfg api net m t) =
     [(t, net (single_request cfg api m t) = None)]"
  "notified (forward_single_target cfg api net m t) =
     (if notify_admin_on_error cfg \<and> net (single_request cfg api m t) \<noteq> None then [t] else [])"
  by (simp_all add: forward_single_target_def Let_def obs_Cons obs_Nil split: option.splits)

lemma media_target_obs:
  assumes "build_media_list (build_caption cfg api first) (first # rest) = ml" and "ml \<noteq> []"
  shows "calls (forward_media_group_target cfg api net (first # rest) t) =
           [send_media_group t ml]"
    and "outcomes (forward_media_group_target cfg api net (first # rest) t) =
           replicate (length (first # rest)) (t, net (send_media_group t ml) = None)"
    and "notified (forward_media_group_target cfg api net (first # rest) t) =
           (if notify_admin_on_error cfg \<and> net (send_media_group t ml) \<noteq> None then [t]
            else [])"
  using assms
  by (simp_all add: forward_media_group_target_def Let_def obs_append obs_Cons obs_Nil
      obs_log_rows split: option.splits)

lemma media_target_empty:
  "build_media_list (build_caption cfg api first) (first # rest) = [] \<Longrightarrow>
   forward_media_group_target cfg api net (first # rest) t = []"
  by (simp add: forward_media_group_target_def)

lemma calls_media_target:
  "calls (forward_media_group_target cfg api net (first # rest) t) =
     (if build_media_list (build_caption cfg api first) (first # rest) = [] then []
      else [send_media_group t (build_media_list (build_caption cfg api first) (first # rest))])"
  by (simp add: media_target_empty obs_Nil media_target_obs)

section \<open>Captions in a media group\<close>

lemma create_input_media_some_caption:
  "create_input_media m c \<noteq> None \<Longrightarrow> \<exists>x. create_input_media m c' = Some x"
  by (auto simp: create_input_media_def split: if_splits option.splits)

lemma map_filter_all_some:
  "\<forall>m\<in>set ms. f m \<noteq> None \<Longrightarrow>
   list_all2 (\<lambda>y m. f m = Some y) (List.map_filter f ms) ms"
  by (induction ms) auto

lemma concat_map_Nil: "concat (map (\<lambda>t. []) ts) = []"
  by (induction ts) simp_all

lemma calls_group_dispatch:
  assumes "rest \<noteq> []" and "truthy (media_group_id first)"
  shows "calls (forward_messages_group cfg api net (first # rest)) =
     (if build_media_list (build_caption cfg api first) (first # rest) = [] then []
      else map (\<lambda>t. send_media_group t
                  (build_media_list (build_caption cfg api first) (first # rest)))
             (target_channels cfg))"
proof -
  have "calls (forward_messages_group cfg api net (first # rest)) =
          concat (map (\<lambda>t. calls (forward_media_group_target cfg api net (first # rest) t))
                    (target_channels cfg))"
    using assms
    by (simp add: forward_messages_group_def forward_media_group_def obs_append obs_concat
        obs_Nil obs_Cons comp_def)
  then show ?thesis
    by (simp add: calls_media_target concat_map_Nil)
qed

text \<open>
  C7. A batch of more than one item goes to every destination as one
  \<^verbatim>\<open>send_media_group\<close> call, in the order of the configuration, carrying the list built
  from the batch (no call at all when that list is empty). In the list only the element
  made from the first item of the batch carries the caption; the element of every other
  item has none. When every item of the batch is a media item, the list has one element
  per item, in batch order: the first item with the caption, every other item without one,
  and each destination is sent exactly this list.
\<close>

theorem media_group_caption_first_only:
  assumes "rest \<noteq> []" and "truthy (media_group_id first)"
  shows "calls (forward_messages_group cfg api net (first # rest)) =
           (if build_media_list (build_caption cfg api first) (first # rest) = [] then []
            else map (\<lambda>t. send_media_group t
                        (build_media_list (build_caption cfg api first) (first # rest)))
                   (target_channels cfg)) \<and>
         build_media_list cap (first # rest) =
           (case create_input_media first (Some cap) of None \<Rightarrow> [] | Some x \<Rightarrow> [x])
           @ List.map_filter (\<lambda>m. create_input_media m None) rest \<and>
         (\<forall>x\<in>set (List.map_filter (\<lambda>m. create_input_media m None) rest).
            media_caption x = None) \<and>
         ((\<forall>m\<in>set (first # rest). create_input_media m None \<noteq> None) \<longrightarrow>
            (\<exists>x xs. build_media_list cap (first # rest) = x # xs \<and>
               create_input_media first (Some cap) = Some x \<and> media_caption x = Some cap \<and>
               list_all2 (\<lambda>y m. create_input_media m None = Some y \<and> media_caption y = None)
                 xs rest) \<and>
            calls (forward_messages_group cfg api net (first # rest)) =
              map (\<lambda>t. send_media_group t
                     (build_media_list (build_caption cfg api first) (first # rest)))
                (target_channels cfg))"
proof (intro conjI impI)
  show "calls (forward_messages_group cfg api net (first # rest)) =
           (if build_media_list (build_caption cfg api first) (first # rest) = [] then []
            else map (\<lambda>t. send_media_group t
                        (build_media_list (build_caption cfg api first) (first # rest)))
                   (target_channels cfg))"
    by (rule calls_group_dispatch [OF assms])
  show "build_media_list cap (first # rest) =
           (case create_input_media first (Some cap) of None \<Rightarrow> [] | Some x \<Rightarrow> [x])
           @ List.map_filter (\<lambda>m. create_input_media m None) rest"
    by (rule build_media_list_Cons)
  show "\<forall>x\<in>set (List.map_filter (\<lambda>m. create_input_media m None) rest). media_caption x = None"
    by (auto simp: map_filter_in_set create_input_media_caption)
next
  assume all: "\<forall>m\<in>set (first # rest). create_input_media m None \<noteq> None"
  then have first: "create_input_media first None \<noteq> None"
    and others: "\<forall>m\<in>set rest. create_input_media m None \<noteq> None"
    by simp_all
  have lead: "\<exists>x. create_input_media first (Some c) = Some x" for c
    using first by (rule create_input_media_some_caption)
  from lead [of cap] obtain x where x: "create_input_media first (Some cap) = Some x"
    by blast
  let ?xs = "List.map_filter (\<lambda>m. create_input_media m None) rest"
  have "list_all2 (\<lambda>y m. create_input_media m None = Some y) ?xs rest"
    by (rule map_filter_all_some [OF others])
  then have "list_all2 (\<lambda>y m. create_input_media m None = Some y \<and> media_caption y = None)
               ?xs rest"
    by (rule list_all2_mono) (simp add: create_input_media_caption)
  moreover have "build_media_list cap (first # rest) = x # ?xs"
    by (simp add: build_media_list_Cons x)
  moreover have "media_caption x = Some cap"
    using x by (rule create_input_media_caption)
  ultimately show "\<exists>x xs. build_media_list cap (first # rest) = x # xs \<and>
               create_input_media first (Some cap) = Some x \<and> media_caption x = Some cap \<and>
               list_all2 (\<lambda>y m. create_input_media m None = Some y \<and> media_caption y = None)
                 xs rest"
    using x by blast
  from lead [of "build_caption cfg api first"]
  have "build_media_list (build_caption cfg api first) (first # rest) \<noteq> []"
    by (auto simp: build_media_list_Cons)
  then show "calls (forward_messages_group cfg api net (first # rest)) =
              map (\<lambda>t. send_media_group t
                     (build_media_list (build_caption cfg api first) (first # rest)))
                (target_channels cfg)"
    by (simp add: calls_group_dispatch [OF assms])
qed

theorem media_group_caption_first_only_witness:
  "calls (forward_messages_group plain_config (\<lambda>_. ApiError ''off'') (\<lambda>_. None)
     [photo_message 3 (Some ''g1'') (Some ''album''), photo_message 5 (Some ''g1'') (Some ''b'')]) =
     [send_media_group (-201)
        [InputMediaPhoto ''large'' (Some ''album''), InputMediaPhoto ''large'' None],
      send_media_group (-202)
        [InputMediaPhoto ''large'' (Some ''album''), InputMediaPhoto ''large'' None]]"
proof -
  let ?first = "photo_message 3 (Some ''g1'') (Some ''album'')"
  let ?rest = "[photo_message 5 (Some ''g1'') (Some ''b'')]"
  let ?api = "\<lambda>_::string. ApiError ''off''"
  have "?rest \<noteq> []" and "truthy (media_group_id ?first)"
    by (simp_all add: photo_message_def truthy_def)
  note T = media_group_caption_first_only
    [OF this, of plain_config ?api "\<lambda>_. None" "''album''"]
  have ml: "build_media_list (build_caption plain_config ?api ?first) (?first # ?rest) =
              [InputMediaPhoto ''large'' (Some ''album''), InputMediaPhoto ''large'' None]"
    by code_simp
  have targets: "target_channels plain_config = [-201, -202]"
    by (simp add: plain_config_def)
  from T [THEN conjunct1] show ?thesis
    by (simp add: ml targets)
qed

section \<open>What a media group can carry\<close>

text \<open>
  C10. The list built for a media group holds, in batch order, one element for each item
  whose content type is photo, video, document or audio, made from that item, and nothing
  for an item of any other type. Each destination is sent exactly this list in one
  \<^verbatim>\<open>send_media_group\<close> call, and nothing else. When no item of the batch has such a
  type, the dispatch of the group does nothing at all: no call to any target, no log row
  (so no success outcome), no notification. The items are those the Bot API delivers
  (\<open>wf_message\<close>).
\<close>

theorem media_group_encodes_media_only:
  assumes "\<forall>m\<in>set (first # rest). wf_message m"
  shows "list_all2 encodes (build_media_list cap (first # rest))
           (filter (\<lambda>m. is_media_type (get_message_type m)) (first # rest)) \<and>
         calls (forward_media_group cfg api net (first # rest)) =
           (if build_media_list (build_caption cfg api first) (first # rest) = [] then []
            else map (\<lambda>t. send_media_group t
                        (build_media_list (build_caption cfg api first) (first # rest)))
                   (target_channels cfg)) \<and>
         (build_media_list cap (first # rest) = [] \<longleftrightarrow>
            (\<forall>m\<in>set (first # rest). \<not> is_media_type (get_message_type m))) \<and>
         ((\<forall>m\<in>set (first # rest). \<not> is_media_type (get_message_type m)) \<longrightarrow>
          forward_media_group cfg api net (first # rest) = [])"
proof (intro conjI impI)
  note all2 = build_media_list_all2 [OF assms]
  show "list_all2 encodes (build_media_list cap (first # rest))
           (filter (\<lambda>m. is_media_type (get_message_type m)) (first # rest))"
    by (rule all2)
  show "calls (forward_media_group cfg api net (first # rest)) =
           (if build_media_list (build_caption cfg api first) (first # rest) = [] then []
            else map (\<lambda>t. send_media_group t
                        (build_media_list (build_caption cfg api first) (first # rest)))
                   (target_channels cfg))"
    by (simp add: forward_media_group_def obs_concat comp_def calls_media_target
        concat_map_Nil)
  from all2 [of cap]
  have "length (build_media_list cap (first # rest)) =
          length (filter (\<lambda>m. is_media_type (get_message_type m)) (first # rest))"
    by (rule list_all2_lengthD)
  then show "build_media_list cap (first # rest) = [] \<longleftrightarrow>
            (\<forall>m\<in>set (first # rest). \<not> is_media_type (get_message_type m))"
    by (metis filter_empty_conv length_0_conv)
next
  assume none: "\<forall>m\<in>set (first # rest). \<not> is_media_type (get_message_type m)"
  then have "filter (\<lambda>m. is_media_type (get_message_type m)) (first # rest) = []"
    by (simp only: filter_empty_conv)
  with build_media_list_all2 [OF assms]
  have empty: "build_media_list c' (first # rest) = []" for c'
    by simp
  then have "forward_media_group_target cfg api net (first # rest) t = []" for t
    by (simp add: media_target_empty)
  then show "forward_media_group cfg api net (first # rest) = []"
    by (simp add: forward_media_group_def)
qed

theorem media_group_encodes_media_only_witness:
  "wf_message (voice_message 3 (Some ''g1'')) \<and> wf_message (voice_message 5 (Some ''g1'')) \<and>
   wf_message (photo_message 5 (Some ''g1'') None) \<and>
   calls (forward_media_group plain_config (\<lambda>_. ApiError ''off'') (\<lambda>_. None)
     [voice_message 3 (Some ''g1''), photo_message 5 (Some ''g1'') None]) =
     [send_media_group (-201) [InputMediaPhoto ''large'' None],
      send_media_group (-202) [InputMediaPhoto ''large'' None]] \<and>
   list_all2 encodes
     (build_media_list ''c'' [voice_message 3 (Some ''g1''), photo_message 5 (Some ''g1'') None])
     [photo_message 5 (Some ''g1'') None] \<and>
   forward_media_group plain_config (\<lambda>_. ApiError ''off'') (\<lambda>_. None)
     [voice_message 3 (Some ''g1''), voice_message 5 (Some ''g1'')] = []"
proof -
  let ?v3 = "voice_message 3 (Some ''g1'')" and ?v5 = "voice_message 5 (Some ''g1'')"
  let ?p5 = "photo_message 5 (Some ''g1'') None"
  let ?api = "\<lambda>_::string. ApiError ''off''"
  have wf: "wf_message ?v3" "wf_message ?v5" "wf_message ?p5"
    by code_simp+
  have ty: "\<not> is_media_type (get_message_type ?v3)" "\<not> is_media_type (get_message_type ?v5)"
    "is_media_type (get_message_type ?p5)"
    by code_simp+
  have mixed: "\<forall>m\<in>set [?v3, ?p5]. wf_message m" and voices: "\<forall>m\<in>set [?v3, ?v5]. wf_message m"
    using wf by simp_all
  have ml: "build_media_list (build_caption plain_config ?api ?v3) [?v3, ?p5] =
              [InputMediaPhoto ''large'' None]"
    by code_simp
  have targets: "target_channels plain_config = [-201, -202]"
    by (simp add: plain_config_def)
  note M = media_group_encodes_media_only [OF mixed, of "''c''" plain_config ?api "\<lambda>_. None"]
  note V = media_group_encodes_media_only [OF voices, of "''c''" plain_config ?api "\<lambda>_. None"]
  from M [THEN conjunct2, THEN conjunct1]
  have "calls (forward_media_group plain_config ?api (\<lambda>_. None) [?v3, ?p5]) =
     [send_media_group (-201) [InputMediaPhoto ''large'' None],
      send_media_group (-202) [InputMediaPhoto ''large'' None]]"
    by (simp add: ml targets)
  moreover from M [THEN conjunct1] ty
  have "list_all2 encodes (build_media_list ''c'' [?v3, ?p5]) [?p5]"
    by simp
  moreover from V [THEN conjunct2, THEN conjunct2, THEN conjunct2] ty
  have "forward_media_group plain_config ?api (\<lambda>_. None) [?v3, ?v5] = []"
    by simp
  ultimately show ?thesis
    using wf by simp
qed

section \<open>Outcomes per destination\<close>

text \<open>
  C3 as stated fails: with \<^verbatim>\<open>notify_admin_on_error\<close> switched off in the configuration,
  both destinations fail and are logged as failures, and the admin notifier is not invoked.
\<close>

theorem notifier_gated_counterexample:
  "outcomes (forward_messages_group (plain_config\<lparr>notify_admin_on_error := False\<rparr>)
      (\<lambda>_. ApiError ''off'') (\<lambda>_. Some ''Forbidden'') [text_message 1 ''hi'']) =
     [(-201, False), (-202, False)] \<and>
   notified (forward_messages_group (plain_config\<lparr>notify_admin_on_error := False\<rparr>)
      (\<lambda>_. ApiError ''off'') (\<lambda>_. Some ''Forbidden'') [text_message 1 ''hi'']) = []"
  by code_simp

text \<open>
  C3, amended. Every destination is attempted once, in the order of the configuration,
  whatever happened at the others. For a single item the log gets exactly one row per
  destination, a failure exactly where the send raised; for a media group with something
  to send it gets one row per item and destination, all with the outcome of that
  destination's send. The admin notifier is invoked once for each failed destination when
  \<^verbatim>\<open>notify_admin_on_error\<close> is set, and not at all when it is not.
\<close>

theorem dispatch_outcomes_per_destination:
  "outcomes (forward_single_message cfg api net m) =
     map (\<lambda>t. (t, net (single_request cfg api m t) = None)) (target_channels cfg) \<and>
   calls (forward_single_message cfg api net m) =
     map (single_request cfg api m) (target_channels cfg) \<and>
   notified (forward_single_message cfg api net m) =
     (if notify_admin_on_error cfg
      then filter (\<lambda>t. net (single_request cfg api m t) \<noteq> None) (target_channels cfg)
      else []) \<and>
   (build_media_list (build_caption cfg api first) (first # rest) = ml \<and> ml \<noteq> [] \<longrightarrow>
     outcomes (forward_media_group cfg api net (first # rest)) =
       concat (map (\<lambda>t. replicate (length (first # rest)) (t, net (send_media_group t ml) = None))
                 (target_channels cfg)) \<and>
     calls (forward_media_group cfg api net (first # rest)) =
       map (\<lambda>t. send_media_group t ml) (target_channels cfg) \<and>
     notified (forward_media_group cfg api net (first # rest)) =
       (if notify_admin_on_error cfg
        then filter (\<lambda>t. net (send_media_group t ml) \<noteq> None) (target_channels cfg)
        else []))"
proof (intro conjI impI)
  show "outcomes (forward_single_message cfg api net m) =
     map (\<lambda>t. (t, net (single_request cfg api m t) = None)) (target_channels cfg)"
    by (simp add: forward_single_message_def obs_concat comp_def single_target_obs)
  show "calls (forward_single_message cfg api net m) =
     map (single_request cfg api m) (target_channels cfg)"
    by (simp add: forward_single_message_def obs_concat comp_def single_target_obs)
  show "notified (forward_single_message cfg api net m) =
     (if notify_admin_on_error cfg
      then filter (\<lambda>t. net (single_request cfg api m t) \<noteq> None) (target_channels cfg)
      else [])"
    by (simp add: forward_single_message_def obs_concat comp_def single_target_obs
        concat_map_if_singleton)
next
  assume a: "build_media_list (build_caption cfg api first) (first # rest) = ml \<and> ml \<noteq> []"
  note obs = media_target_obs [OF conjunct1 [OF a] conjunct2 [OF a]]
  show "outcomes (forward_media_group cfg api net (first # rest)) =
       concat (map (\<lambda>t. replicate (length (first # rest)) (t, net (send_media_group t ml) = None))
                 (target_channels cfg))"
    by (simp add: forward_media_group_def obs_concat comp_def obs)
  show "calls (forward_media_group cfg api net (first # rest)) =
       map (\<lambda>t. send_media_group t ml) (target_channels cfg)"
    by (simp add: forward_media_group_def obs_concat comp_def obs)
  show "notified (forward_media_group cfg api net (first # rest)) =
       (if notify_admin_on_error cfg
        then filter (\<lambda>t. net (send_media_group t ml) \<noteq> None) (target_channels cfg)
        else [])"
    by (simp add: forward_media_group_def obs_concat comp_def obs concat_map_if_singleton)
qed

theorem dispatch_outcomes_per_destination_witness:
  "outcomes (forward_single_message plain_config (\<lambda>_. ApiError ''off'')
      (\<lambda>r. if r = copy_message (-201) (-100) 1 then Some ''Forbidden'' else None)
      (text_message 1 ''hi'')) = [(-201, False), (-202, True)] \<and>
   notified (forward_single_message plain_config (\<lambda>_. ApiError ''off'')
      (\<lambda>r. if r = copy_message (-201) (-100) 1 then Some ''Forbidden'' else None)
      (text_message 1 ''hi'')) = [-201] \<and>
   outcomes (forward_media_group plain_config (\<lambda>_. ApiError ''off'') (\<lambda>_. Some ''Forbidden'')
      [photo_message 3 (Some ''g1'') (Some ''a''), photo_message 5 (Some ''g1'') None]) =
     [(-201, False), (-201, False), (-202, False), (-202, False)] \<and>
   notified (forward_media_group plain_config (\<lambda>_. ApiError ''off'') (\<lambda>_. Some ''Forbidden'')
      [photo_message 3 (Some ''g1'') (Some ''a''), photo_message 5 (Some ''g1'') None]) =
     [-201, -202]"
proof -
  let ?api = "\<lambda>_::string. ApiError ''off''"
  let ?net = "\<lambda>r. if r = copy_message (-201) (-100) 1 then Some ''Forbidden'' else None"
  let ?down = "\<lambda>_::request. Some ''Forbidden''"
  let ?m = "text_message 1 ''hi''"
  let ?first = "photo_message 3 (Some ''g1'') (Some ''a'')"
  let ?rest = "[photo_message 5 (Some ''g1'') None]"
  let ?ml = "[InputMediaPhoto ''large'' (Some ''a''), InputMediaPhoto ''large'' None]"
  have req: "single_request plain_config ?api ?m t = copy_message t (-100) 1" for t
    by (simp add: single_request_def need_process_def plain_config_def text_message_def
        photo_message_def)
  have ml: "build_media_list (build_caption plain_config ?api ?first) (?first # ?rest) = ?ml"
    by code_simp
  have cfg: "target_channels plain_config = [-201, -202]" "notify_admin_on_error plain_config"
    by (simp_all add: plain_config_def)
  note single = dispatch_outcomes_per_destination
    [of plain_config ?api ?net ?m ?first ?rest ?ml]
  note group = dispatch_outcomes_per_destination
    [of plain_config ?api ?down ?m ?first ?rest ?ml]
  have "outcomes (forward_single_message plain_config ?api ?net ?m) =
          [(-201, False), (-202, True)]"
    using single [THEN conjunct1] by (simp add: req cfg)
  moreover have "notified (forward_single_message plain_config ?api ?net ?m) = [-201]"
    using single [THEN conjunct2, THEN conjunct2, THEN conjunct1] by (simp add: req cfg)
  moreover have "outcomes (forward_media_group plain_config ?api ?down (?first # ?rest)) =
          [(-201, False), (-201, False), (-202, False), (-202, False)]"
    using group [THEN conjunct2, THEN conjunct2, THEN conjunct2] ml by (simp add: cfg)
  moreover have "notified (forward_media_group plain_config ?api ?down (?first # ?rest)) =
          [-201, -202]"
    using group [THEN conjunct2, THEN conjunct2, THEN conjunct2] ml by (simp add: cfg)
  ultimately show ?thesis
    by simp
qed

section \<open>Passthrough\<close>

text \<open>
  C6 as stated fails: with no transformation configured, a batch of two photos is not
  copied. It is re-encoded into a \<^verbatim>\<open>send_media_group\<close> call for each destination, and
  the caption of the second photo is not in it.
\<close>

theorem media_group_not_passthrough_counterexample:
  "\<not> need_process plain_config \<and>
   calls (forward_messages_group plain_config (\<lambda>_. ApiError ''off'') (\<lambda>_. None)
      [photo_message 3 (Some ''g1'') (Some ''a''), photo_message 5 (Some ''g1'') (Some ''b'')]) =
     [send_media_group (-201)
        [InputMediaPhoto ''large'' (Some ''a''), InputMediaPhoto ''large'' None],
      send_media_group (-202)
        [InputMediaPhoto ''large'' (Some ''a''), InputMediaPhoto ''large'' None]]"
  by code_simp

text \<open>
  C6, amended. When no transformation is configured (rewriting off, no substitution rule,
  source info off), a batch of one item is delivered to every destination by
  \<^verbatim>\<open>copy_message\<close> of the source message, the verbatim copy, and by nothing else.
\<close>

theorem single_item_passthrough:
  "\<not> need_process cfg \<Longrightarrow>
   calls (forward_messages_group cfg api net [m]) =
     map (\<lambda>t. copy_message t (chat_id m) (message_id m)) (target_channels cfg)"
  by (simp add: forward_messages_group_def forward_single_message_def obs_append obs_concat
      obs_Cons obs_Nil comp_def single_target_obs single_request_def)

theorem single_item_passthrough_witness:
  "\<not> need_process plain_config \<and>
   calls (forward_messages_group plain_config (\<lambda>_. ApiError ''off'') (\<lambda>_. None)
      [photo_message 3 None (Some ''a'')]) =
     [copy_message (-201) (-100) 3, copy_message (-202) (-100) 3]"
proof -
  have off: "\<not> need_process plain_config"
    by (simp add: need_process_def plain_config_def)
  from single_item_passthrough [OF off, of "\<lambda>_. ApiError ''off''" "\<lambda>_. None"
      "photo_message 3 None (Some ''a'')"] off
  show ?thesis
    by (simp add: plain_config_def photo_message_def)
qed

section \<open>Debouncing a media group\<close>

lemma run_Nil: "run s [] = s"
  by (simp add: run_def)

lemma run_Cons: "run s (e # evs) = run (step s e) evs"
  by (simp add: run_def)

lemma run_append: "run s (xs @ ys) = run (run s xs) ys"
  by (simp add: run_def)

lemma add_message_group:
  assumes "media_group_id m = Some g" and "g \<noteq> []"
  shows "add_message m s =
     s\<lparr>media_groups :=
          AList.update g ((case map_of (media_groups s) g of None \<Rightarrow> [] | Some ms \<Rightarrow> ms) @ [m])
            (media_groups s),
        group_timers := AList.update g (Sleeping (now s + timeout_seconds s)) (group_timers s)\<rparr>"
  using assms by (simp add: add_message_def truthy_def)

lemma elapse_not_due:
  assumes "group_timers s = [(g, Sleeping w)]" and "now s + d < w"
  shows "elapse d s = s\<lparr>now := now s + d\<rparr>"
  using assms by (simp add: elapse_def due_def)

lemma elapse_idle:
  assumes "group_timers s = []"
  shows "elapse d s = s\<lparr>now := now s + d\<rparr>"
  using assms by (simp add: elapse_def due_def)

lemma elapse_due:
  assumes "media_groups s = [(g, buf)]" and "group_timers s = [(g, Sleeping w)]"
    and "w \<le> now s + d"
  shows "elapse d s =
     s\<lparr>now := now s + d, media_groups := [], group_timers := [],
       emitted := emitted s @ [sort_key message_id buf]\<rparr>"
  using assms
  by (simp add: elapse_def due_def process_group_after_timeout_def process_group_begin_def
      process_group_end_def)

lemma run_burst_events:
  assumes "media_groups s = [(g, buf)]"
    and "group_timers s = [(g, Sleeping (now s + timeout_seconds s))]"
    and "\<forall>(d, m)\<in>set rest. d < timeout_seconds s \<and> media_group_id m = Some g"
    and "g \<noteq> []"
  shows "run s (burst_events rest) =
     s\<lparr>media_groups := [(g, buf @ map snd rest)],
       group_timers := [(g, Sleeping (now s + sum_list (map fst rest) + timeout_seconds s))],
       now := now s + sum_list (map fst rest)\<rparr>"
  using assms
proof (induction rest arbitrary: s buf)
  case Nil
  then show ?case
    by (simp add: run_Nil)
next
  case (Cons dm rest)
  obtain d m where dm: "dm = (d, m)"
    by (cases dm)
  from Cons.prems dm have d: "d < timeout_seconds s" and m: "media_group_id m = Some g"
    and rest: "\<forall>(d, m)\<in>set rest. d < timeout_seconds s \<and> media_group_id m = Some g"
    by simp_all
  let ?s1 = "s\<lparr>now := now s + d\<rparr>"
  let ?s2 = "?s1\<lparr>media_groups := [(g, (buf @ [m]))],
                 group_timers := [(g, Sleeping (now s + d + timeout_seconds s))]\<rparr>"
  have e: "elapse d s = ?s1"
    using Cons.prems(2) d by (simp add: elapse_not_due)
  have a: "add_message m ?s1 = ?s2"
    using Cons.prems(1,2) by (simp add: add_message_group [OF m Cons.prems(4)])
  have "run ?s2 (burst_events rest) =
     ?s2\<lparr>media_groups := [(g, (buf @ [m]) @ map snd rest)],
       group_timers := [(g, Sleeping (now ?s2 + sum_list (map fst rest) + timeout_seconds ?s2))],
       now := now ?s2 + sum_list (map fst rest)\<rparr>"
    by (rule Cons.IH) (use rest Cons.prems(4) in simp_all)
  then show ?case
    by (simp add: dm run_Cons e a add.assoc)
qed


lemma run_burst:
  assumes "media_groups s = []" and "group_timers s = []"
    and "media_group_id m0 = Some g" and "g \<noteq> []"
    and "\<forall>(d, m)\<in>set rest. d < timeout_seconds s \<and> media_group_id m = Some g"
  shows "run s (burst m0 rest) =
     s\<lparr>media_groups := [(g, m0 # map snd rest)],
       group_timers := [(g, Sleeping (now s + sum_list (map fst rest) + timeout_seconds s))],
       now := now s + sum_list (map fst rest)\<rparr>"
proof -
  let ?s1 = "s\<lparr>media_groups := [(g, [m0])],
               group_timers := [(g, Sleeping (now s + timeout_seconds s))]\<rparr>"
  have a: "add_message m0 s = ?s1"
    using assms(1,2) by (simp add: add_message_group [OF assms(3,4)])
  have "run ?s1 (burst_events rest) =
     ?s1\<lparr>media_groups := [(g, [m0] @ map snd rest)],
       group_timers := [(g, Sleeping (now ?s1 + sum_list (map fst rest) + timeout_seconds ?s1))],
       now := now ?s1 + sum_list (map fst rest)\<rparr>"
    by (rule run_burst_events) (use assms(4,5) in simp_all)
  then show ?thesis
    by (simp add: burst_def run_Cons a)
qed

lemma run_idle_elapses:
  "media_groups s = [] \<Longrightarrow> group_timers s = [] \<Longrightarrow>
   emitted (run s (map Elapse ds)) = emitted s"
proof (induction ds arbitrary: s)
  case Nil
  then show ?case by (simp add: run_Nil)
next
  case (Cons d ds)
  have "emitted (run (s\<lparr>now := now s + d\<rparr>) (map Elapse ds)) = emitted (s\<lparr>now := now s + d\<rparr>)"
    by (rule Cons.IH) (use Cons.prems in simp_all)
  then show ?case
    using Cons.prems by (simp add: run_Cons elapse_idle)
qed

text \<open>
  C1. Take a handler with nothing pending and submit items that all carry the same group
  id, each less than the debounce window after the one before. Nothing is emitted during
  the burst, nor while less than the window has passed since the last submission. Once the
  window has passed the log holds exactly one new batch, however much more time goes by;
  that batch is sorted ascending by item id and holds every submitted item.
\<close>

theorem burst_emits_one_sorted_batch:
  assumes "media_groups s = []" and "group_timers s = []"
    and "media_group_id m0 = Some g" and "g \<noteq> []"
    and "\<forall>(d, m)\<in>set rest. d < timeout_seconds s \<and> media_group_id m = Some g"
  shows "emitted (run s (burst m0 rest)) = emitted s \<and>
         (d < timeout_seconds s \<longrightarrow> emitted (run s (burst m0 rest @ [Elapse d])) = emitted s) \<and>
         (timeout_seconds s \<le> d \<longrightarrow>
            emitted (run s (burst m0 rest @ Elapse d # map Elapse later)) =
              emitted s @ [sort_key message_id (m0 # map snd rest)]) \<and>
         sorted (map message_id (sort_key message_id (m0 # map snd rest))) \<and>
         mset (sort_key message_id (m0 # map snd rest)) = mset (m0 # map snd rest)"
proof (intro conjI impI)
  let ?n = "sum_list (map fst rest)"
  let ?b = "s\<lparr>media_groups := [(g, m0 # map snd rest)],
              group_timers := [(g, Sleeping (now s + ?n + timeout_seconds s))],
              now := now s + ?n\<rparr>"
  note b = run_burst [OF assms]
  show "emitted (run s (burst m0 rest)) = emitted s"
    by (simp add: b)
  show "emitted (run s (burst m0 rest @ [Elapse d])) = emitted s" if "d < timeout_seconds s"
  proof -
    have "elapse d ?b = ?b\<lparr>now := now ?b + d\<rparr>"
      by (rule elapse_not_due [where g = g]) (use that in auto)
    then show ?thesis
      by (simp add: run_append b run_Cons run_Nil)
  qed
  show "emitted (run s (burst m0 rest @ Elapse d # map Elapse later)) =
          emitted s @ [sort_key message_id (m0 # map snd rest)]" if "timeout_seconds s \<le> d"
  proof -
    let ?f = "?b\<lparr>now := now ?b + d, media_groups := [], group_timers := [],
                 emitted := emitted ?b @ [sort_key message_id (m0 # map snd rest)]\<rparr>"
    have f: "elapse d ?b = ?f"
      by (rule elapse_due [where g = g]) (use that in auto)
    have "emitted (run ?f (map Elapse later)) = emitted ?f"
      by (rule run_idle_elapses) simp_all
    then show ?thesis
      by (simp add: run_append b run_Cons f)
  qed
  show "sorted (map message_id (sort_key message_id (m0 # map snd rest)))"
    by (rule sorted_sort_key)
  show "mset (sort_key message_id (m0 # map snd rest)) = mset (m0 # map snd rest)"
    by (rule mset_sort)
qed

theorem burst_emits_one_sorted_batch_witness:
  "emitted (run (init_handler 3)
      [Submit (photo_message 5 (Some ''g1'') None), Elapse 1,
       Submit (photo_message 3 (Some ''g1'') None), Elapse 3]) =
     [[photo_message 3 (Some ''g1'') None, photo_message 5 (Some ''g1'') None]]"
proof -
  let ?A = "photo_message 5 (Some ''g1'') None" and ?B = "photo_message 3 (Some ''g1'') None"
  have idle: "media_groups (init_handler 3) = []" "group_timers (init_handler 3) = []"
    by (simp_all add: init_handler_def)
  have "media_group_id ?A = Some ''g1''" and "''g1'' \<noteq> []"
    and "\<forall>(d, m)\<in>set [(1, ?B)]. d < timeout_seconds (init_handler 3) \<and>
           media_group_id m = Some ''g1''"
    by (simp_all add: photo_message_def init_handler_def)
  note T = burst_emits_one_sorted_batch [OF idle this, of 3 "[]"]
  have order: "sort_key message_id [?A, ?B] = [?B, ?A]"
    by (simp add: photo_message_def)
  from T order show ?thesis
    by (simp add: burst_def init_handler_def)
qed

section \<open>Every item is emitted once\<close>

lemma bufs_update:
  "distinct (map fst al) \<Longrightarrow>
   mset (concat (map snd (AList.update k
      ((case map_of al k of None \<Rightarrow> [] | Some ms \<Rightarrow> ms) @ [m]) al))) =
   mset (concat (map snd al)) + {#m#}"
  by (induction al) (auto simp: rev_image_eqI)

lemma bufs_delete:
  "distinct (map fst al) \<Longrightarrow> map_of al k = Some ms \<Longrightarrow>
   mset (concat (map snd (AList.delete k al))) + mset ms = mset (concat (map snd al))"
  by (induction al) (auto simp: rev_image_eqI)

lemma snd_update_subset: "snd ` set (AList.update k v al) \<subseteq> insert v (snd ` set al)"
  by (induction al) auto

lemma snd_delete_subset: "snd ` set (AList.delete k al) \<subseteq> snd ` set al"
  by (induction al) auto

lemma not_forwarding_lookup:
  "Forwarding \<notin> snd ` set al \<Longrightarrow> map_of al k \<noteq> Some Forwarding"
  by (auto dest: map_of_SomeD simp: rev_image_eqI)

lemma quiescent_add_message:
  assumes "quiescent s"
  shows "quiescent (add_message m s)"
    and "mset (concat (emitted (add_message m s))) + mset (buffered (add_message m s)) =
         mset (concat (emitted s)) + mset (buffered s) + {#m#}"
proof -
  show "quiescent (add_message m s)"
    using assms snd_update_subset [of _ "Sleeping (now s + timeout_seconds s)" "group_timers s"]
    by (auto simp: quiescent_def add_message_def Let_def distinct_update)
  show "mset (concat (emitted (add_message m s))) + mset (buffered (add_message m s)) =
         mset (concat (emitted s)) + mset (buffered s) + {#m#}"
    using assms
    by (simp add: quiescent_def add_message_def Let_def buffered_def bufs_update)
qed

lemma quiescent_process_group:
  assumes "quiescent s"
  shows "quiescent (process_group_after_timeout g s)"
    and "mset (concat (emitted (process_group_after_timeout g s))) +
           mset (buffered (process_group_after_timeout g s)) =
         mset (concat (emitted s)) + mset (buffered s)"
proof -
  from assms have d: "distinct (map fst (media_groups s))"
    and nf: "Forwarding \<notin> snd ` set (group_timers s)"
    by (simp_all add: quiescent_def)
  note look = not_forwarding_lookup [OF nf, of g]
  have "(\<exists>w ms. map_of (group_timers s) g = Some (Sleeping w) \<and> \<not> now s < w \<and>
            map_of (media_groups s) g = Some ms) \<or>
        (\<exists>w. map_of (group_timers s) g = Some (Sleeping w) \<and> \<not> now s < w \<and>
            map_of (media_groups s) g = None) \<or>
        process_group_begin g s = s"
    by (simp add: process_group_begin_def split: option.splits task.splits)
  then consider
    (fire) w ms where "map_of (group_timers s) g = Some (Sleeping w)" "\<not> now s < w"
      "map_of (media_groups s) g = Some ms"
  | (gone) w where "map_of (group_timers s) g = Some (Sleeping w)" "\<not> now s < w"
      "map_of (media_groups s) g = None"
  | (idle) "process_group_begin g s = s"
    by blast
  then have "quiescent (process_group_after_timeout g s) \<and>
         mset (concat (emitted (process_group_after_timeout g s))) +
           mset (buffered (process_group_after_timeout g s)) =
         mset (concat (emitted s)) + mset (buffered s)"
  proof cases
    case fire
    then have "process_group_after_timeout g s =
        s\<lparr>media_groups := AList.delete g (media_groups s),
          group_timers := AList.delete g (group_timers s),
          emitted := emitted s @ [sort_key message_id ms]\<rparr>"
      by (simp add: process_group_after_timeout_def process_group_begin_def
          process_group_end_def update_conv' delete_update_same)
    then show ?thesis
      using d nf snd_delete_subset [of g "group_timers s"] bufs_delete [OF d fire(3)]
      by (auto simp: quiescent_def buffered_def distinct_delete ac_simps)
  next
    case gone
    then have "process_group_after_timeout g s =
        s\<lparr>group_timers := AList.update g Finished (group_timers s)\<rparr>"
      by (simp add: process_group_after_timeout_def process_group_begin_def
          process_group_end_def update_conv')
    then show ?thesis
      using d nf snd_update_subset [of g Finished "group_timers s"]
      by (auto simp: quiescent_def buffered_def)
  next
    case idle
    then have "process_group_after_timeout g s = s"
      using look by (simp add: process_group_after_timeout_def process_group_end_def
          split: option.splits task.splits)
    then show ?thesis
      using assms by simp
  qed
  then show "quiescent (process_group_after_timeout g s)"
    and "mset (concat (emitted (process_group_after_timeout g s))) +
           mset (buffered (process_group_after_timeout g s)) =
         mset (concat (emitted s)) + mset (buffered s)"
    by simp_all
qed

lemma quiescent_fold:
  assumes "quiescent s"
  shows "quiescent (foldl (\<lambda>s' g. process_group_after_timeout g s') s gs) \<and>
         mset (concat (emitted (foldl (\<lambda>s' g. process_group_after_timeout g s') s gs))) +
           mset (buffered (foldl (\<lambda>s' g. process_group_after_timeout g s') s gs)) =
         mset (concat (emitted s)) + mset (buffered s)"
  using assms
proof (induction gs arbitrary: s)
  case Nil
  then show ?case by simp
next
  case (Cons g gs)
  from Cons.IH [OF quiescent_process_group(1) [OF Cons.prems, of g]]
    quiescent_process_group(2) [OF Cons.prems, of g]
  show ?case by simp
qed

lemma quiescent_step:
  assumes "quiescent s"
  shows "quiescent (step s e) \<and>
         mset (concat (emitted (step s e))) + mset (buffered (step s e)) =
         mset (concat (emitted s)) + mset (buffered s) + mset (submitted [e])"
proof (cases e)
  case (Submit m)
  with quiescent_add_message [OF assms, of m] show ?thesis by simp
next
  case (Elapse d)
  have q: "quiescent (s\<lparr>now := now s + d\<rparr>)"
    using assms by (simp add: quiescent_def)
  from quiescent_fold [OF q, of "due (now s + d) s"] Elapse show ?thesis
    by (simp add: elapse_def buffered_def)
qed

lemma submitted_append: "submitted (xs @ ys) = submitted xs @ submitted ys"
  by (induction xs rule: submitted.induct) simp_all

lemma quiescent_run:
  assumes "quiescent s"
  shows "quiescent (run s evs) \<and>
         mset (concat (emitted (run s evs))) + mset (buffered (run s evs)) =
         mset (concat (emitted s)) + mset (buffered s) + mset (submitted evs)"
proof (induction evs rule: rev_induct)
  case Nil
  then show ?case using assms by (simp add: run_Nil)
next
  case (snoc e evs)
  from quiescent_step [OF conjunct1 [OF snoc], of e] snoc show ?case
    by (simp add: run_append run_Cons run_Nil submitted_append)
qed


lemma quiescent_init: "quiescent (init_handler t)"
  by (simp add: quiescent_def init_handler_def)

text \<open>
  When each callback returns before the next event, every submitted item is accounted for
  exactly once: it is still in a buffer, or it is in exactly one emitted batch.
\<close>

lemma run_accounts_for_every_item:
  "mset (concat (emitted (run (init_handler t) evs))) + mset (buffered (run (init_handler t) evs)) =
     mset (submitted evs)"
  using quiescent_run [OF quiescent_init, of t evs]
  by (simp add: init_handler_def buffered_def)

text \<open>
  C2. The handler breaks the claim. It cancels the previous timer, tests that the buffer
  is still there and deletes it once forwarded, all to emit a group once; but it deletes
  the buffer only after the callback has returned, and takes no lock. Item 3 is submitted
  and its timer fires at time 3: the callback is running with the batch of item 3, the
  task is inside it. Item 5 of the same group is submitted now. It is appended to the
  buffer being forwarded, after finalization has begun, and the forwarding task is
  cancelled; three ticks later the new timer emits the buffer again, item 3 included.
  Had item 5 come once the callback had returned, it would have been a batch of its own.
\<close>

theorem submit_during_forwarding_emits_twice:
  "emitted (process_group_begin ''g1''
      ((add_message (photo_message 3 (Some ''g1'') None) (init_handler 3))\<lparr>now := 3\<rparr>)) =
     [[photo_message 3 (Some ''g1'') None]] \<and>
   map_of (group_timers (process_group_begin ''g1''
      ((add_message (photo_message 3 (Some ''g1'') None) (init_handler 3))\<lparr>now := 3\<rparr>))) ''g1'' =
     Some Forwarding \<and>
   buffered (add_message (photo_message 5 (Some ''g1'') None)
     (process_group_begin ''g1''
        ((add_message (photo_message 3 (Some ''g1'') None) (init_handler 3))\<lparr>now := 3\<rparr>))) =
     [photo_message 3 (Some ''g1'') None, photo_message 5 (Some ''g1'') None] \<and>
   emitted (elapse 3 (add_message (photo_message 5 (Some ''g1'') None)
     (process_group_begin ''g1''
        ((add_message (photo_message 3 (Some ''g1'') None) (init_handler 3))\<lparr>now := 3\<rparr>)))) =
     [[photo_message 3 (Some ''g1'') None],
      [photo_message 3 (Some ''g1'') None, photo_message 5 (Some ''g1'') None]] \<and>
   emitted (run (init_handler 3)
      [Submit (photo_message 3 (Some ''g1'') None), Elapse 3,
       Submit (photo_message 5 (Some ''g1'') None), Elapse 3]) =
     [[photo_message 3 (Some ''g1'') None], [photo_message 5 (Some ''g1'') None]]"
  by code_simp

section \<open>Item ids within a batch\<close>






end
